theory Spec2Isabelle
  imports Main "HOL-Library.Char_ord" "HOL-Library.List_Lexorder" "HOL-Library.Product_Lexorder"
    "HOL-Library.Multiset"
begin

section \<open>Dataset endpoints of the REST API: \<open>airflow/api_connexion/endpoints/dataset_endpoint.py\<close>\<close>

text \<open>
  The four endpoint functions \<open>delete_dataset\<close>, \<open>get_dataset\<close>, \<open>get_datasets\<close> and
  \<open>get_dataset_events\<close> build SQLAlchemy statements and hand them to a session. The
  embedding keeps that shape: a statement is a value (\<open>select_stmt\<close>) that the endpoint
  builds clause by clause, the session is a record of the database it is bound to, the
  stored rows and the list of statements executed so far, and every \<open>raise\<close> is an \<open>Inl\<close>
  result.

  The decorators (\<open>security.requires_access_dataset\<close>, \<open>provide_session\<close>,
  \<open>action_logging\<close>, \<open>format_parameters\<close>) wrap the functions from outside; the
  functions below are the decorated bodies, which receive \<open>limit\<close> as \<open>check_limit\<close>
  returned it.
\<close>

subsection \<open>Rows\<close>

text \<open>
  \<open>DatasetModel\<close> and \<open>DatasetEvent\<close> (\<open>airflow.models.dataset\<close>) with the columns the
  endpoints read. Timestamps are integers (a point in time); the three relationships are
  the lists SQLAlchemy loads. The nullable provenance columns are options.
\<close>

type_synonym dag_ref = string
type_synonym task_ref = "string \<times> string"
type_synonym dagrun_ref = "string \<times> string"

record dataset =
  ds_id :: int
  uri :: string
  created_at :: int
  updated_at :: int
  consuming_dags :: "dag_ref list"
  producing_tasks :: "task_ref list"

record dataset_event =
  ev_id :: int
  dataset_id :: int
  source_dag_id :: "string option"
  source_task_id :: "string option"
  source_run_id :: "string option"
  source_map_index :: "int option"
  timestamp :: int
  created_dagruns :: "dagrun_ref list"

subsection \<open>Errors\<close>

text \<open>
  \<open>NotFound title detail\<close> and \<open>Conflict detail\<close> are the two exceptions the module
  raises itself. \<open>InvalidSortField\<close> is what \<open>apply_sorting\<close> raises, \<open>InvalidParameter\<close>
  the parameter error of the specification's taxonomy (no function of the module raises
  it), and \<open>StoreFailure\<close> an error of the database while it executes a statement.
\<close>

datatype error =
    NotFound string string
  | Conflict string
  | InvalidSortField string
  | InvalidParameter string
  | StoreFailure

subsection \<open>Python truthiness of optional parameters\<close>

text \<open>\<open>if x:\<close> for \<open>x: str | None\<close> and \<open>x: int | None\<close>.\<close>

fun truthy_str :: "string option \<Rightarrow> bool" where
  "truthy_str None = False"
| "truthy_str (Some v) = (v \<noteq> [])"

fun truthy_int :: "int option \<Rightarrow> bool" where
  "truthy_int None = False"
| "truthy_int (Some v) = (v \<noteq> 0)"

subsection \<open>The database behind the session\<close>

text \<open>
  The endpoints run on whatever database the session is bound to, and the databases differ
  where the statements of this module are concerned: in the escape character of \<open>LIKE\<close>, in
  the values they accept for \<open>OFFSET\<close> and \<open>LIMIT\<close>, in where \<open>NULL\<close> sorts, in the
  letters that \<open>lower\<close> folds (SQLite folds the ASCII letters only, the others fold by their
  locale), and in the collation of text. The engine, the folding and the collation are
  therefore part of the session. The folding gives the lower-case form of a character. A
  collation is given by its key: two texts compare as their keys compare character by
  character (the identity is the binary collation).
\<close>

datatype engine = PostgreSQL | MySQL | SQLite

record backend =
  engine :: engine
  lower_of :: "char \<Rightarrow> char"
  collation_key :: "string \<Rightarrow> string"

subsection \<open>SQL \<open>ILIKE\<close>\<close>

text \<open>
  \<open>column.ilike(pattern)\<close> is SQL \<open>lower(column) LIKE lower(pattern)\<close>, with the case folding
  of the database. In a \<open>LIKE\<close> pattern \<open>%\<close> stands for any run of characters and \<open>_\<close>
  for exactly one character. The statement gives no \<open>ESCAPE\<close> clause, so the escape
  character is the default of the engine: the backslash on PostgreSQL and MySQL, none on
  SQLite. The character after an escape character stands for itself. (A pattern that ends
  in a lone escape character does not arise here, \<open>get_datasets\<close> ends every pattern
  with \<open>%\<close>; it is read as that character itself.)
\<close>

text \<open>The folding of the ASCII letters, and of nothing else.\<close>

definition lower_char :: "char \<Rightarrow> char" where
  "lower_char c =
     (case map_of (zip ''ABCDEFGHIJKLMNOPQRSTUVWXYZ'' ''abcdefghijklmnopqrstuvwxyz'') c of
        None \<Rightarrow> c
      | Some l \<Rightarrow> l)"

definition lower :: "string \<Rightarrow> string" where
  "lower s = map lower_char s"

definition backslash :: char where
  "backslash = CHR 0x5C"

fun like_escape :: "engine \<Rightarrow> char option" where
  "like_escape PostgreSQL = Some backslash"
| "like_escape MySQL = Some backslash"
| "like_escape SQLite = None"

fun like_match :: "char option \<Rightarrow> string \<Rightarrow> string \<Rightarrow> bool" where
  "like_match esc [] s = (s = [])"
| "like_match esc (p # ps) s =
     (if Some p = esc then
        (case ps of
           [] \<Rightarrow> s = [p]
         | q # qs \<Rightarrow> (case s of [] \<Rightarrow> False | c # cs \<Rightarrow> q = c \<and> like_match esc qs cs))
      else if p = CHR ''%'' then
        (like_match esc ps s
         \<or> (case s of [] \<Rightarrow> False | c # cs \<Rightarrow> like_match esc (p # ps) cs))
      else
        (case s of [] \<Rightarrow> False | c # cs \<Rightarrow> (p = CHR ''_'' \<or> p = c) \<and> like_match esc ps cs))"

text \<open>
  A text is literal as a pattern when it holds none of the characters that a \<open>LIKE\<close>
  pattern reads specially on one of the engines.
\<close>

definition like_literal :: "string \<Rightarrow> bool" where
  "like_literal p \<longleftrightarrow> CHR ''%'' \<notin> set p \<and> CHR ''_'' \<notin> set p \<and> backslash \<notin> set p"

definition fold_text :: "backend \<Rightarrow> string \<Rightarrow> string" where
  "fold_text b s = map (lower_of b) s"

definition ilike :: "backend \<Rightarrow> string \<Rightarrow> string \<Rightarrow> bool" where
  "ilike b column pattern =
     like_match (like_escape (engine b)) (fold_text b pattern) (fold_text b column)"

text \<open>
  A folding touches letters only: it takes none of the three characters that are special
  in a pattern to another character, and no other character to one of them.
\<close>

definition folds_letters_only :: "(char \<Rightarrow> char) \<Rightarrow> bool" where
  "folds_letters_only f \<longleftrightarrow>
     (\<forall>c. (f c = CHR ''%'') = (c = CHR ''%'') \<and> (f c = CHR ''_'') = (c = CHR ''_'')
          \<and> (f c = backslash) = (c = backslash))"

subsection \<open>Statements\<close>

text \<open>
  The \<open>where\<close> criteria the endpoints use, one constructor per expression of the source:
  \<open>DatasetModel.uri == u\<close>, \<open>DatasetModel.uri.ilike(p)\<close> and the five equalities on
  \<open>DatasetEvent\<close> columns. An SQL equality with a \<open>NULL\<close> column is not true.
\<close>

datatype ds_pred = UriEq string | UriILike string

datatype ev_pred =
    DatasetIdEq int
  | SourceDagIdEq string
  | SourceTaskIdEq string
  | SourceRunIdEq string
  | SourceMapIndexEq int

fun ds_holds :: "backend \<Rightarrow> ds_pred \<Rightarrow> dataset \<Rightarrow> bool" where
  "ds_holds b (UriEq u) d = (uri d = u)"
| "ds_holds b (UriILike p) d = ilike b (uri d) p"

fun ev_holds :: "ev_pred \<Rightarrow> dataset_event \<Rightarrow> bool" where
  "ev_holds (DatasetIdEq v) e = (dataset_id e = v)"
| "ev_holds (SourceDagIdEq v) e = (source_dag_id e = Some v)"
| "ev_holds (SourceTaskIdEq v) e = (source_task_id e = Some v)"
| "ev_holds (SourceRunIdEq v) e = (source_run_id e = Some v)"
| "ev_holds (SourceMapIndexEq v) e = (source_map_index e = Some v)"

text \<open>
  A \<open>select(Model)\<close> statement: the criteria added by \<open>.where\<close>, the \<open>ORDER BY\<close> column
  and direction (\<open>True\<close> for descending), \<open>.offset\<close>, \<open>.limit\<close>, and the relationships
  named in \<open>.options\<close>.
\<close>

record 'p select_stmt =
  wheres :: "'p list"
  order_clause :: "(string \<times> bool) option"
  offset_clause :: "int option"
  limit_clause :: "int option"
  load_options :: "string list"

definition select_from :: "'p select_stmt" where
  "select_from = \<lparr>wheres = [], order_clause = None, offset_clause = None,
                   limit_clause = None, load_options = []\<rparr>"

definition where_clause :: "'p \<Rightarrow> 'p select_stmt \<Rightarrow> 'p select_stmt" where
  "where_clause p q = q\<lparr>wheres := wheres q @ [p]\<rparr>"

definition options :: "string list \<Rightarrow> 'p select_stmt \<Rightarrow> 'p select_stmt" where
  "options rels q = q\<lparr>load_options := load_options q @ rels\<rparr>"

definition offset_by :: "int \<Rightarrow> 'p select_stmt \<Rightarrow> 'p select_stmt" where
  "offset_by n q = q\<lparr>offset_clause := Some n\<rparr>"

definition limit_to :: "int \<Rightarrow> 'p select_stmt \<Rightarrow> 'p select_stmt" where
  "limit_to n q = q\<lparr>limit_clause := Some n\<rparr>"

definition order_by_text :: "string \<times> bool \<Rightarrow> 'p select_stmt \<Rightarrow> 'p select_stmt" where
  "order_by_text ob q = q\<lparr>order_clause := Some ob\<rparr>"

text \<open>What a session has executed: the statements, in the order they were issued.\<close>

datatype stmt =
    SelectDataset "ds_pred select_stmt"
  | CountDatasetId
  | SelectEvent "ev_pred select_stmt"
  | CountEvent "ev_pred select_stmt"
  | DeleteDataset int

record session =
  backend :: backend
  dataset_rows :: "dataset list"
  event_rows :: "dataset_event list"
  executed :: "stmt list"

subsection \<open>How the database evaluates a statement\<close>

text \<open>
  \<open>WHERE\<close>, then \<open>ORDER BY\<close>, then \<open>OFFSET\<close>, then \<open>LIMIT\<close>, whatever the order in which
  the clauses were added to the statement.

  \<open>OFFSET\<close> and \<open>LIMIT\<close>. PostgreSQL accepts the values from \<open>0\<close> to \<open>2^63 - 1\<close> and MySQL
  those from \<open>0\<close> to \<open>2^64 - 1\<close>; any other value is an error. SQLite accepts the values
  from \<open>-2^63\<close> to \<open>2^63 - 1\<close>, a negative \<open>OFFSET\<close> being \<open>0\<close> and a negative \<open>LIMIT\<close> no
  limit; a value outside that range cannot be bound and is an error.
\<close>

fun least_count :: "engine \<Rightarrow> int" where
  "least_count PostgreSQL = 0"
| "least_count MySQL = 0"
| "least_count SQLite = - (2 ^ 63)"

fun greatest_count :: "engine \<Rightarrow> int" where
  "greatest_count PostgreSQL = 2 ^ 63 - 1"
| "greatest_count MySQL = 2 ^ 64 - 1"
| "greatest_count SQLite = 2 ^ 63 - 1"

definition accepted_count :: "engine \<Rightarrow> int \<Rightarrow> bool" where
  "accepted_count eng n = (least_count eng \<le> n \<and> n \<le> greatest_count eng)"

definition offset_rows :: "engine \<Rightarrow> int \<Rightarrow> 'a list \<Rightarrow> error + 'a list" where
  "offset_rows eng n xs =
     (if accepted_count eng n then Inr (if n < 0 then xs else drop (nat n) xs)
      else Inl StoreFailure)"

definition limit_rows :: "engine \<Rightarrow> int \<Rightarrow> 'a list \<Rightarrow> error + 'a list" where
  "limit_rows eng n xs =
     (if accepted_count eng n then Inr (if n < 0 then xs else take (nat n) xs)
      else Inl StoreFailure)"

definition paginate :: "engine \<Rightarrow> int option \<Rightarrow> int option \<Rightarrow> 'a list \<Rightarrow> error + 'a list"
  where
  "paginate eng off lim xs =
     (case (case off of None \<Rightarrow> Inr xs | Some n \<Rightarrow> offset_rows eng n xs) of
        Inl e \<Rightarrow> Inl e
      | Inr ys \<Rightarrow> (case lim of None \<Rightarrow> Inr ys | Some n \<Rightarrow> limit_rows eng n ys))"

text \<open>
  \<open>ORDER BY\<close>. Every column value has a key, and rows are ordered by their keys: a number
  by its value, a text by its collation key, and \<open>NULL\<close> after every value on PostgreSQL
  and before every value on MySQL and SQLite. Keys are triples, compared component by
  component: the place of \<open>NULL\<close>, the number, the text.
\<close>

type_synonym order_key = "nat \<times> int \<times> string"

definition int_key :: "int \<Rightarrow> order_key" where
  "int_key v = (1, v, [])"

definition text_key :: "backend \<Rightarrow> string \<Rightarrow> order_key" where
  "text_key b v = (1, 0, collation_key b v)"

definition null_key :: "backend \<Rightarrow> order_key" where
  "null_key b = (if engine b = PostgreSQL then 2 else 0, 0, [])"

definition nullable_int_key :: "backend \<Rightarrow> int option \<Rightarrow> order_key" where
  "nullable_int_key b x = (case x of None \<Rightarrow> null_key b | Some v \<Rightarrow> int_key v)"

definition nullable_text_key :: "backend \<Rightarrow> string option \<Rightarrow> order_key" where
  "nullable_text_key b x = (case x of None \<Rightarrow> null_key b | Some v \<Rightarrow> text_key b v)"

text \<open>
  The columns of the two tables by name, each with the key of its value in a row; \<open>None\<close>
  for a name that is not a column. The tables have the columns of the two records.
\<close>

definition dataset_column :: "backend \<Rightarrow> string \<Rightarrow> (dataset \<Rightarrow> order_key) option" where
  "dataset_column b name =
     (if name = ''id'' then Some (\<lambda>d. int_key (ds_id d))
      else if name = ''uri'' then Some (\<lambda>d. text_key b (uri d))
      else if name = ''created_at'' then Some (\<lambda>d. int_key (created_at d))
      else if name = ''updated_at'' then Some (\<lambda>d. int_key (updated_at d))
      else None)"

definition event_column :: "backend \<Rightarrow> string \<Rightarrow> (dataset_event \<Rightarrow> order_key) option" where
  "event_column b name =
     (if name = ''id'' then Some (\<lambda>e. int_key (ev_id e))
      else if name = ''dataset_id'' then Some (\<lambda>e. int_key (dataset_id e))
      else if name = ''source_dag_id'' then Some (\<lambda>e. nullable_text_key b (source_dag_id e))
      else if name = ''source_task_id'' then Some (\<lambda>e. nullable_text_key b (source_task_id e))
      else if name = ''source_run_id'' then Some (\<lambda>e. nullable_text_key b (source_run_id e))
      else if name = ''source_map_index''
        then Some (\<lambda>e. nullable_int_key b (source_map_index e))
      else if name = ''timestamp'' then Some (\<lambda>e. int_key (timestamp e))
      else None)"

text \<open>
  Rows in the order of a key, ascending or descending. Rows of equal key come in their
  stored order in both directions, which is what the engines return for a table read in
  stored order. An \<open>ORDER BY\<close> on a name that is not a column is an error of the database.
\<close>

definition order_rows :: "('a \<Rightarrow> order_key) \<Rightarrow> bool \<Rightarrow> 'a list \<Rightarrow> 'a list" where
  "order_rows key desc rows =
     (if desc then rev (sort_key key (rev rows)) else sort_key key rows)"

definition order_by_column ::
  "(string \<Rightarrow> ('a \<Rightarrow> order_key) option) \<Rightarrow> string \<times> bool \<Rightarrow> 'a list \<Rightarrow> error + 'a list"
  where
  "order_by_column column ob rows =
     (case column (fst ob) of
        None \<Rightarrow> Inl StoreFailure
      | Some key \<Rightarrow> Inr (order_rows key (snd ob) rows))"

definition order_datasets ::
  "backend \<Rightarrow> string \<times> bool \<Rightarrow> dataset list \<Rightarrow> error + dataset list" where
  "order_datasets b ob rows = order_by_column (dataset_column b) ob rows"

definition order_events ::
  "backend \<Rightarrow> string \<times> bool \<Rightarrow> dataset_event list \<Rightarrow> error + dataset_event list" where
  "order_events b ob rows = order_by_column (event_column b) ob rows"

definition ds_matching :: "backend \<Rightarrow> ds_pred list \<Rightarrow> dataset list \<Rightarrow> dataset list" where
  "ds_matching b ps rows = filter (\<lambda>d. list_all (\<lambda>p. ds_holds b p d) ps) rows"

definition ev_matching :: "ev_pred list \<Rightarrow> dataset_event list \<Rightarrow> dataset_event list" where
  "ev_matching ps rows = filter (\<lambda>e. list_all (\<lambda>p. ev_holds p e) ps) rows"

definition ordered ::
  "(string \<times> bool \<Rightarrow> 'a list \<Rightarrow> error + 'a list) \<Rightarrow> (string \<times> bool) option \<Rightarrow> 'a list
     \<Rightarrow> error + 'a list" where
  "ordered f ob rows = (case ob of None \<Rightarrow> Inr rows | Some c \<Rightarrow> f c rows)"

definition run_select_datasets ::
  "backend \<Rightarrow> ds_pred select_stmt \<Rightarrow> dataset list \<Rightarrow> error + dataset list" where
  "run_select_datasets b q rows =
     (case ordered (order_datasets b) (order_clause q) (ds_matching b (wheres q) rows) of
        Inl e \<Rightarrow> Inl e
      | Inr sorted_rows \<Rightarrow> paginate (engine b) (offset_clause q) (limit_clause q) sorted_rows)"

definition run_select_events ::
  "backend \<Rightarrow> ev_pred select_stmt \<Rightarrow> dataset_event list \<Rightarrow> error + dataset_event list" where
  "run_select_events b q rows =
     (case ordered (order_events b) (order_clause q) (ev_matching (wheres q) rows) of
        Inl e \<Rightarrow> Inl e
      | Inr sorted_rows \<Rightarrow> paginate (engine b) (offset_clause q) (limit_clause q) sorted_rows)"

subsection \<open>Session operations\<close>

text \<open>
  \<open>session.scalars(stmt).all()\<close> returns the rows, \<open>session.scalar(stmt)\<close> the first row or
  \<open>None\<close>, \<open>session.scalars(select(func.count(DatasetModel.id))).one()\<close> the number of
  dataset rows with an id (the primary key, never \<open>NULL\<close>), and \<open>session.delete(obj)\<close>
  removes the row with the object's primary key. Each one appends to \<open>executed\<close>.
\<close>

definition log :: "stmt \<Rightarrow> session \<Rightarrow> session" where
  "log st s = s\<lparr>executed := executed s @ [st]\<rparr>"

definition scalars_datasets ::
  "ds_pred select_stmt \<Rightarrow> session \<Rightarrow> (error + dataset list) \<times> session" where
  "scalars_datasets q s =
     (run_select_datasets (backend s) q (dataset_rows s), log (SelectDataset q) s)"

definition scalars_events ::
  "ev_pred select_stmt \<Rightarrow> session \<Rightarrow> (error + dataset_event list) \<times> session" where
  "scalars_events q s =
     (run_select_events (backend s) q (event_rows s), log (SelectEvent q) s)"

definition first_row :: "'a list \<Rightarrow> 'a option" where
  "first_row rows = (case rows of [] \<Rightarrow> None | r # _ \<Rightarrow> Some r)"

definition scalar_dataset ::
  "ds_pred select_stmt \<Rightarrow> session \<Rightarrow> (error + dataset option) \<times> session" where
  "scalar_dataset q s =
     (case scalars_datasets q s of
        (Inl e, s') \<Rightarrow> (Inl e, s')
      | (Inr rows, s') \<Rightarrow> (Inr (first_row rows), s'))"

definition count_dataset_ids :: "session \<Rightarrow> int \<times> session" where
  "count_dataset_ids s = (int (length (dataset_rows s)), log CountDatasetId s)"

definition session_delete :: "dataset \<Rightarrow> session \<Rightarrow> session" where
  "session_delete d s =
     log (DeleteDataset (ds_id d))
       (s\<lparr>dataset_rows := filter (\<lambda>r. ds_id r \<noteq> ds_id d) (dataset_rows s)\<rparr>)"

subsection \<open>\<open>delete_dataset\<close> and \<open>get_dataset\<close>\<close>

definition not_found :: "string \<Rightarrow> error" where
  "not_found u =
     NotFound ''Dataset not found'' (''The Dataset with uri: `'' @ u @ ''` was not found'')"

definition delete_dataset :: "string \<Rightarrow> session \<Rightarrow> (error + unit) \<times> session" where
  "delete_dataset u s =
     (case scalar_dataset (where_clause (UriEq u) select_from) s of
        (Inl e, s1) \<Rightarrow> (Inl e, s1)
      | (Inr None, s1) \<Rightarrow> (Inl (not_found u), s1)
      | (Inr (Some d), s1) \<Rightarrow>
          if consuming_dags d \<noteq> [] \<or> producing_tasks d \<noteq> []
          then (Inl (Conflict ''Dataset is still referenced by other DAG''), s1)
          else (Inr (), session_delete d s1))"

definition get_dataset :: "string \<Rightarrow> session \<Rightarrow> (error + dataset) \<times> session" where
  "get_dataset u s =
     (case scalar_dataset
             (options [''consuming_dags'', ''producing_tasks'']
                (where_clause (UriEq u) select_from)) s of
        (Inl e, s1) \<Rightarrow> (Inl e, s1)
      | (Inr None, s1) \<Rightarrow> (Inl (not_found u), s1)
      | (Inr (Some d), s1) \<Rightarrow> (Inr d, s1))"

subsection \<open>Helpers of other modules\<close>

text \<open>
  Modelled from the spec: the field of a sort token. \<open>apply_sorting\<close>
  (\<open>airflow.api_connexion.parameters\<close>) is not part of the sources at hand; section 4.1 of
  the specification encodes the direction in the token, a leading marker on the field name
  (here \<open>-\<close>) selecting descending order.
\<close>

definition sort_field :: "string \<Rightarrow> string" where
  "sort_field order_by =
     (case order_by of [] \<Rightarrow> [] | c # cs \<Rightarrow> if c = CHR ''-'' then cs else order_by)"

text \<open>
  Modelled from the spec: the direction of a sort token (section 4.1), \<open>True\<close> for
  descending; part of the absent \<open>apply_sorting\<close>.
\<close>

definition sort_descending :: "string \<Rightarrow> bool" where
  "sort_descending order_by = (case order_by of [] \<Rightarrow> False | c # cs \<Rightarrow> c = CHR ''-'')"

text \<open>
  Modelled from the spec: \<open>apply_sorting\<close> (\<open>airflow.api_connexion.parameters\<close>) is not
  part of the sources at hand. Section 4.1 of the specification: the requested field is
  checked against the entity's allow-list and a field outside it fails with
  \<open>InvalidSortField\<close>; otherwise the result is the statement with its ordering clause. The
  endpoints pass an empty replacement mapping as third argument, which plays no part.
\<close>

definition apply_sorting ::
  "'p select_stmt \<Rightarrow> string \<Rightarrow> (string \<times> string) list \<Rightarrow> string list
     \<Rightarrow> error + 'p select_stmt" where
  "apply_sorting query order_by to_replace allowed_attrs =
     (if sort_field order_by \<notin> set allowed_attrs
      then Inl (InvalidSortField (sort_field order_by))
      else Inr (order_by_text (sort_field order_by, sort_descending order_by) query))"

text \<open>
  Modelled from the spec: \<open>get_query_count\<close> (\<open>airflow.utils.db\<close>) is not part of the
  sources at hand. Section 4.2 of the specification: the count query counts the root rows
  that match the statement's filter predicates, whatever relationships the statement loads.
\<close>

definition get_query_count :: "ev_pred select_stmt \<Rightarrow> session \<Rightarrow> int \<times> session" where
  "get_query_count query s =
     (int (length (ev_matching (wheres query) (event_rows s))), log (CountEvent query) s)"

subsection \<open>\<open>get_datasets\<close> and \<open>get_dataset_events\<close>\<close>

text \<open>
  \<open>DatasetCollection(datasets, total_entries)\<close> and
  \<open>DatasetEventCollection(dataset_events, total_entries)\<close>: the rows of the page and the
  count.
\<close>

record 'a collection =
  items :: "'a list"
  total_entries :: int

text \<open>\<open>if x: query = query.where(...)\<close>: the clause is added for a truthy value only.\<close>

definition when_str ::
  "string option \<Rightarrow> (string \<Rightarrow> 'q \<Rightarrow> 'q) \<Rightarrow> 'q \<Rightarrow> 'q" where
  "when_str x f q = (case x of None \<Rightarrow> q | Some v \<Rightarrow> if truthy_str x then f v q else q)"

definition when_int ::
  "int option \<Rightarrow> (int \<Rightarrow> 'q \<Rightarrow> 'q) \<Rightarrow> 'q \<Rightarrow> 'q" where
  "when_int x f q = (case x of None \<Rightarrow> q | Some v \<Rightarrow> if truthy_int x then f v q else q)"

definition dataset_allowed_attrs :: "string list" where
  "dataset_allowed_attrs = [''id'', ''uri'', ''created_at'', ''updated_at'']"

definition event_allowed_attrs :: "string list" where
  "event_allowed_attrs =
     [''source_dag_id'', ''source_task_id'', ''source_run_id'', ''source_map_index'',
      ''timestamp'']"

text \<open>
  Lines 106 to 108 of the source: \<open>select(DatasetModel)\<close>, with the \<open>ilike\<close> criterion on
  the uri when \<open>uri_pattern\<close> is truthy. The pattern is placed between two \<open>%\<close> as it is.
\<close>

definition dataset_query :: "string option \<Rightarrow> ds_pred select_stmt" where
  "dataset_query uri_pattern =
     (let query = select_from;
          query = when_str uri_pattern
                    (\<lambda>v. where_clause (UriILike (''%'' @ v @ ''%''))) query
      in query)"

text \<open>
  \<open>get_datasets\<close>: the count of the dataset ids is taken first (line 105), then the
  statement is built and sorted, then the page is fetched.
\<close>

definition get_datasets ::
  "int \<Rightarrow> int \<Rightarrow> string option \<Rightarrow> string \<Rightarrow> session
     \<Rightarrow> (error + dataset collection) \<times> session" where
  "get_datasets limit offset uri_pattern order_by s =
     (case count_dataset_ids s of
        (entries, s1) \<Rightarrow>
          (case apply_sorting (dataset_query uri_pattern) order_by [] dataset_allowed_attrs of
             Inl e \<Rightarrow> (Inl e, s1)
           | Inr query \<Rightarrow>
               (case scalars_datasets
                       (limit_to limit (offset_by offset
                          (options [''consuming_dags'', ''producing_tasks''] query))) s1 of
                  (Inl e, s2) \<Rightarrow> (Inl e, s2)
                | (Inr datasets, s2) \<Rightarrow>
                    (Inr \<lparr>items = datasets, total_entries = entries\<rparr>, s2))))"

text \<open>
  Lines 136 to 149 of the source: \<open>select(DatasetEvent)\<close>, one \<open>where\<close> per truthy filter
  parameter, in the order of the source, and the loading option.
\<close>

definition event_query ::
  "int option \<Rightarrow> string option \<Rightarrow> string option \<Rightarrow> string option \<Rightarrow> int option
     \<Rightarrow> ev_pred select_stmt" where
  "event_query dataset_id_p source_dag_id_p source_task_id_p source_run_id_p source_map_index_p =
     (let query = select_from;
          query = when_int dataset_id_p (\<lambda>v. where_clause (DatasetIdEq v)) query;
          query = when_str source_dag_id_p (\<lambda>v. where_clause (SourceDagIdEq v)) query;
          query = when_str source_task_id_p (\<lambda>v. where_clause (SourceTaskIdEq v)) query;
          query = when_str source_run_id_p (\<lambda>v. where_clause (SourceRunIdEq v)) query;
          query = when_int source_map_index_p (\<lambda>v. where_clause (SourceMapIndexEq v)) query
      in options [''created_dagruns''] query)"

text \<open>
  \<open>get_dataset_events\<close>: the filtered statement is counted (line 151), then sorted
  (line 152), then the page is fetched (line 153).
\<close>

definition get_dataset_events ::
  "int \<Rightarrow> int \<Rightarrow> string \<Rightarrow> int option \<Rightarrow> string option \<Rightarrow> string option \<Rightarrow> string option
     \<Rightarrow> int option \<Rightarrow> session \<Rightarrow> (error + dataset_event collection) \<times> session" where
  "get_dataset_events limit offset order_by dataset_id_p source_dag_id_p source_task_id_p
       source_run_id_p source_map_index_p s =
     (let query = event_query dataset_id_p source_dag_id_p source_task_id_p source_run_id_p
                    source_map_index_p
      in case get_query_count query s of
           (entries, s1) \<Rightarrow>
             (case apply_sorting query order_by [] event_allowed_attrs of
                Inl e \<Rightarrow> (Inl e, s1)
              | Inr query \<Rightarrow>
                  (case scalars_events (limit_to limit (offset_by offset query)) s1 of
                     (Inl e, s2) \<Rightarrow> (Inl e, s2)
                   | (Inr events, s2) \<Rightarrow>
                       (Inr \<lparr>items = events, total_entries = entries\<rparr>, s2))))"

text \<open>
  The row statements that the two endpoints hand to \<open>session.scalars\<close>: the filtered
  statement with the ordering of \<open>apply_sorting\<close>, the loading options, \<open>.offset(offset)\<close>
  and \<open>.limit(limit)\<close>.
\<close>

definition dataset_row_query ::
  "int \<Rightarrow> int \<Rightarrow> string option \<Rightarrow> string \<Rightarrow> ds_pred select_stmt" where
  "dataset_row_query limit offset uri_pattern order_by =
     limit_to limit (offset_by offset
       (options [''consuming_dags'', ''producing_tasks'']
          (order_by_text (sort_field order_by, sort_descending order_by)
             (dataset_query uri_pattern))))"

definition event_row_query ::
  "int \<Rightarrow> int \<Rightarrow> string \<Rightarrow> ev_pred select_stmt \<Rightarrow> ev_pred select_stmt" where
  "event_row_query limit offset order_by query =
     limit_to limit (offset_by offset
       (order_by_text (sort_field order_by, sort_descending order_by) query))"

text \<open>
  The keyword parameters with a default in the signatures: \<open>offset: int = 0\<close>, and
  \<open>order_by: str = "id"\<close> (datasets) or \<open>"timestamp"\<close> (events). \<open>None\<close> is the omitted
  parameter.
\<close>

definition default_to :: "'a \<Rightarrow> 'a option \<Rightarrow> 'a" where
  "default_to d x = (case x of None \<Rightarrow> d | Some v \<Rightarrow> v)"

definition get_datasets_call ::
  "int \<Rightarrow> int option \<Rightarrow> string option \<Rightarrow> string option \<Rightarrow> session
     \<Rightarrow> (error + dataset collection) \<times> session" where
  "get_datasets_call limit offset uri_pattern order_by s =
     get_datasets limit (default_to 0 offset) uri_pattern (default_to ''id'' order_by) s"

definition get_dataset_events_call ::
  "int \<Rightarrow> int option \<Rightarrow> string option \<Rightarrow> int option \<Rightarrow> string option \<Rightarrow> string option
     \<Rightarrow> string option \<Rightarrow> int option \<Rightarrow> session
     \<Rightarrow> (error + dataset_event collection) \<times> session" where
  "get_dataset_events_call limit offset order_by dataset_id_p source_dag_id_p source_task_id_p
       source_run_id_p source_map_index_p s =
     get_dataset_events limit (default_to 0 offset) (default_to ''timestamp'' order_by)
       dataset_id_p source_dag_id_p source_task_id_p source_run_id_p source_map_index_p s"

subsection \<open>The specification's words\<close>

text \<open>
  Substring containment, and its case-insensitive form: what the specification means
  by a case-insensitive substring match of a pattern in a uri.
\<close>

fun starts_with :: "'a list \<Rightarrow> 'a list \<Rightarrow> bool" where
  "starts_with [] s = True"
| "starts_with (p # ps) [] = False"
| "starts_with (p # ps) (c # cs) = (p = c \<and> starts_with ps cs)"

fun contains :: "'a list \<Rightarrow> 'a list \<Rightarrow> bool" where
  "contains p [] = (p = [])"
| "contains p (c # cs) = (starts_with p (c # cs) \<or> contains p cs)"

definition contains_ci :: "string \<Rightarrow> string \<Rightarrow> bool" where
  "contains_ci p s = contains (lower p) (lower s)"

text \<open>The same under a given folding of the letters.\<close>

definition contains_folded :: "(char \<Rightarrow> char) \<Rightarrow> string \<Rightarrow> string \<Rightarrow> bool" where
  "contains_folded f p s = contains (map f p) (map f s)"


text \<open>
  A message names the kind of the entities that reference a dataset: it mentions DAGs
  when consuming DAGs reference it and tasks when producing tasks do.
\<close>

definition names_kind :: "dataset \<Rightarrow> string \<Rightarrow> bool" where
  "names_kind d msg =
     ((consuming_dags d = [] \<or> contains_ci ''dag'' msg)
      \<and> (producing_tasks d = [] \<or> contains_ci ''task'' msg))"

text \<open>
  The filters of the event listing as the specification words them: an absent, empty
  or zero value is no filter, any other value selects the events whose column equals it.
\<close>

definition exact_int :: "int option \<Rightarrow> int option \<Rightarrow> bool" where
  "exact_int x column = (case x of None \<Rightarrow> True | Some v \<Rightarrow> v = 0 \<or> column = Some v)"

definition exact_str :: "string option \<Rightarrow> string option \<Rightarrow> bool" where
  "exact_str x column = (case x of None \<Rightarrow> True | Some v \<Rightarrow> v = [] \<or> column = Some v)"

definition event_filter ::
  "int option \<Rightarrow> string option \<Rightarrow> string option \<Rightarrow> string option \<Rightarrow> int option
     \<Rightarrow> dataset_event \<Rightarrow> bool" where
  "event_filter dataset_id_p source_dag_id_p source_task_id_p source_run_id_p source_map_index_p e =
     (exact_int dataset_id_p (Some (dataset_id e))
      \<and> exact_str source_dag_id_p (source_dag_id e)
      \<and> exact_str source_task_id_p (source_task_id e)
      \<and> exact_str source_run_id_p (source_run_id e)
      \<and> exact_int source_map_index_p (source_map_index e))"

subsection \<open>A small catalog\<close>

text \<open>
  The scenario of the specification (\<open>ds1\<close> without references, \<open>ds2\<close> with one consuming
  DAG), a dataset that only a task produces, one with upper-case letters in its uri, and
  three events, one of them of map index \<open>0\<close> and two of them of the same DAG; on each
  engine, with the folding of the ASCII letters and the binary collation.
  \<open>task_only_catalog\<close> holds the task-produced dataset alone.
\<close>

definition dataset_A :: dataset where
  "dataset_A = \<lparr>ds_id = 1, uri = ''ds1'', created_at = 10, updated_at = 11,
                 consuming_dags = [], producing_tasks = []\<rparr>"

definition dataset_B :: dataset where
  "dataset_B = \<lparr>ds_id = 2, uri = ''ds2'', created_at = 20, updated_at = 21,
                 consuming_dags = [''dag1''], producing_tasks = []\<rparr>"

definition dataset_C :: dataset where
  "dataset_C = \<lparr>ds_id = 3, uri = ''ds3'', created_at = 30, updated_at = 31,
                 consuming_dags = [], producing_tasks = [(''dag2'', ''load'')]\<rparr>"

definition dataset_D :: dataset where
  "dataset_D = \<lparr>ds_id = 4, uri = ''s3://Bucket/Key'', created_at = 40, updated_at = 41,
                 consuming_dags = [], producing_tasks = []\<rparr>"

definition event_1 :: dataset_event where
  "event_1 = \<lparr>ev_id = 1, dataset_id = 3, source_dag_id = Some ''dag2'',
               source_task_id = Some ''load'', source_run_id = Some ''run1'',
               source_map_index = Some (- 1), timestamp = 100, created_dagruns = []\<rparr>"

definition event_2 :: dataset_event where
  "event_2 = \<lparr>ev_id = 2, dataset_id = 3, source_dag_id = Some ''dag2'',
               source_task_id = Some ''load'', source_run_id = Some ''run2'',
               source_map_index = Some 0, timestamp = 200, created_dagruns = []\<rparr>"

definition event_3 :: dataset_event where
  "event_3 = \<lparr>ev_id = 3, dataset_id = 2, source_dag_id = Some ''dag3'',
               source_task_id = Some ''fill'', source_run_id = Some ''run1'',
               source_map_index = Some 1, timestamp = 300,
               created_dagruns = [(''dag1'', ''run7'')]\<rparr>"

definition binary_collation :: "string \<Rightarrow> string" where
  "binary_collation v = v"

definition catalog_on :: "engine \<Rightarrow> session" where
  "catalog_on eng =
     \<lparr>backend = \<lparr>engine = eng, lower_of = lower_char, collation_key = binary_collation\<rparr>,
      dataset_rows = [dataset_A, dataset_B, dataset_C, dataset_D],
      event_rows = [event_1, event_2, event_3], executed = []\<rparr>"

definition catalog :: session where
  "catalog = catalog_on PostgreSQL"

definition task_only_catalog :: session where
  "task_only_catalog = catalog\<lparr>dataset_rows := [dataset_C]\<rparr>"

section \<open>Properties\<close>

subsection \<open>Statements and the session log\<close>

lemmas catalog_defs = catalog_def catalog_on_def task_only_catalog_def binary_collation_def
  dataset_A_def dataset_B_def dataset_C_def dataset_D_def event_1_def event_2_def event_3_def

lemma dataset_rows_log [simp]: "dataset_rows (log st s) = dataset_rows s"
  by (simp add: log_def)

lemma event_rows_log [simp]: "event_rows (log st s) = event_rows s"
  by (simp add: log_def)

lemma backend_log [simp]: "backend (log st s) = backend s"
  by (simp add: log_def)

lemma executed_log [simp]: "executed (log st s) = executed s @ [st]"
  by (simp add: log_def)

lemma wheres_options [simp]: "wheres (options rels q) = wheres q"
  by (simp add: options_def)

lemma wheres_where_clause [simp]: "wheres (where_clause p q) = wheres q @ [p]"
  by (simp add: where_clause_def)

lemma wheres_select_from [simp]: "wheres select_from = []"
  by (simp add: select_from_def)

lemma clauses_where_clause [simp]:
  "offset_clause (where_clause p q) = offset_clause q"
  "limit_clause (where_clause p q) = limit_clause q"
  "order_clause (where_clause p q) = order_clause q"
  by (simp_all add: where_clause_def)

lemma clauses_options [simp]:
  "offset_clause (options rels q) = offset_clause q"
  "limit_clause (options rels q) = limit_clause q"
  "order_clause (options rels q) = order_clause q"
  by (simp_all add: options_def)

lemma clauses_when_int [simp]:
  "offset_clause (when_int x (\<lambda>v. where_clause (f v)) q) = offset_clause q"
  "limit_clause (when_int x (\<lambda>v. where_clause (f v)) q) = limit_clause q"
  "order_clause (when_int x (\<lambda>v. where_clause (f v)) q) = order_clause q"
  by (cases x; simp add: when_int_def)+

lemma clauses_when_str [simp]:
  "offset_clause (when_str x (\<lambda>v. where_clause (f v)) q) = offset_clause q"
  "limit_clause (when_str x (\<lambda>v. where_clause (f v)) q) = limit_clause q"
  "order_clause (when_str x (\<lambda>v. where_clause (f v)) q) = order_clause q"
  by (cases x; simp add: when_str_def)+


subsection \<open>Lookup by uri\<close>

lemma first_row_unique:
  "distinct (map uri rows) \<Longrightarrow> d \<in> set rows
     \<Longrightarrow> first_row (filter (\<lambda>r. uri r = uri d) rows) = Some d"
  by (induction rows) (auto simp: first_row_def image_iff)

lemma first_row_absent:
  "u \<notin> uri ` set rows \<Longrightarrow> first_row (filter (\<lambda>r. uri r = u) rows) = None"
  by (induction rows) (auto simp: first_row_def)

lemma run_uri_eq:
  "run_select_datasets b (where_clause (UriEq u) select_from) rows
     = Inr (filter (\<lambda>r. uri r = u) rows)"
  by (simp add: run_select_datasets_def where_clause_def select_from_def ordered_def
      paginate_def ds_matching_def)

lemma run_uri_eq_options:
  "run_select_datasets b (options rels (where_clause (UriEq u) select_from)) rows
     = Inr (filter (\<lambda>r. uri r = u) rows)"
  by (simp add: run_select_datasets_def where_clause_def select_from_def ordered_def
      paginate_def ds_matching_def options_def)

lemma scalar_by_uri:
  "scalar_dataset (where_clause (UriEq u) select_from) s =
     (Inr (first_row (filter (\<lambda>r. uri r = u) (dataset_rows s))),
      log (SelectDataset (where_clause (UriEq u) select_from)) s)"
  by (simp add: scalar_dataset_def scalars_datasets_def run_uri_eq)

lemma scalar_by_uri_options:
  "scalar_dataset (options rels (where_clause (UriEq u) select_from)) s =
     (Inr (first_row (filter (\<lambda>r. uri r = u) (dataset_rows s))),
      log (SelectDataset (options rels (where_clause (UriEq u) select_from))) s)"
  by (simp add: scalar_dataset_def scalars_datasets_def run_uri_eq_options)

lemma delete_dataset_blocked:
  assumes "d \<in> set (dataset_rows s)"
    and "distinct (map uri (dataset_rows s))"
    and "consuming_dags d \<noteq> [] \<or> producing_tasks d \<noteq> []"
  shows "delete_dataset (uri d) s =
        (Inl (Conflict ''Dataset is still referenced by other DAG''),
         log (SelectDataset (where_clause (UriEq (uri d)) select_from)) s)"
proof -
  have found: "first_row (filter (\<lambda>r. uri r = uri d) (dataset_rows s)) = Some d"
    using assms(1,2) by (simp add: first_row_unique)
  show ?thesis
    using assms(3) by (auto simp add: delete_dataset_def scalar_by_uri found)
qed

subsection \<open>Sorting, filtering and pagination of the listings\<close>

lemma apply_sorting_allowed:
  "sort_field ob \<in> set allowed
     \<Longrightarrow> apply_sorting q ob r allowed = Inr (order_by_text (sort_field ob, sort_descending ob) q)"
  by (simp add: apply_sorting_def)

lemma apply_sorting_refused:
  "sort_field ob \<notin> set allowed
     \<Longrightarrow> apply_sorting q ob r allowed = Inl (InvalidSortField (sort_field ob))"
  by (simp add: apply_sorting_def)

lemma accepted_count_common:
  "0 \<le> n \<Longrightarrow> n < 2 ^ 63 \<Longrightarrow> accepted_count eng n"
  by (cases eng) (simp_all add: accepted_count_def)

lemma paginate_valid:
  assumes "0 \<le> off" and "off < 2 ^ 63" and "0 \<le> lim" and "lim < 2 ^ 63"
  shows "paginate eng (Some off) (Some lim) xs = Inr (take (nat lim) (drop (nat off) xs))"
  using assms by (simp add: paginate_def offset_rows_def limit_rows_def accepted_count_common)

lemma paginate_never_invalid_parameter:
  "paginate eng off lim xs \<noteq> Inl (InvalidParameter m)"
  by (auto simp: paginate_def offset_rows_def limit_rows_def split: option.splits sum.splits)

lemma mset_order_rows [simp]: "mset (order_rows key desc rows) = mset rows"
  by (simp add: order_rows_def)



lemma event_column_allowed:
  "c \<in> set event_allowed_attrs \<Longrightarrow> \<exists>key. event_column b c = Some key"
  by (auto simp: event_allowed_attrs_def event_column_def)


lemma order_events_column:
  "event_column b c = Some key \<Longrightarrow> order_events b (c, desc) rows = Inr (order_rows key desc rows)"
  by (simp add: order_events_def order_by_column_def)

lemma order_datasets_never_invalid_parameter:
  "order_datasets b ob rows \<noteq> Inl (InvalidParameter m)"
  by (simp add: order_datasets_def order_by_column_def split: option.splits)

lemma order_events_never_invalid_parameter:
  "order_events b ob rows \<noteq> Inl (InvalidParameter m)"
  by (simp add: order_events_def order_by_column_def split: option.splits)

lemma ev_matching_append:
  "ev_matching (ps @ [p]) rows = filter (ev_holds p) (ev_matching ps rows)"
  by (auto simp: ev_matching_def intro: filter_cong)

lemma ev_matching_when_int:
  "ev_matching (wheres (when_int x (\<lambda>v. where_clause (f v)) q)) rows
     = filter (\<lambda>e. case x of None \<Rightarrow> True | Some v \<Rightarrow> v = 0 \<or> ev_holds (f v) e)
         (ev_matching (wheres q) rows)"
  by (cases x) (auto simp: when_int_def ev_matching_append intro: filter_cong)

lemma ev_matching_when_str:
  "ev_matching (wheres (when_str x (\<lambda>v. where_clause (f v)) q)) rows
     = filter (\<lambda>e. case x of None \<Rightarrow> True | Some v \<Rightarrow> v = [] \<or> ev_holds (f v) e)
         (ev_matching (wheres q) rows)"
  by (cases x) (auto simp: when_str_def ev_matching_append intro: filter_cong)

lemma ev_matching_event_query:
  "ev_matching (wheres (event_query a b c d e)) rows = filter (event_filter a b c d e) rows"
proof -
  have nil: "ev_matching [] rows = rows"
    by (simp add: ev_matching_def)
  show ?thesis
    unfolding event_query_def Let_def wheres_options
      ev_matching_when_int ev_matching_when_str wheres_select_from nil filter_filter
    by (rule filter_cong)
       (auto simp: event_filter_def exact_int_def exact_str_def split: option.splits)
qed

lemma run_dataset_row_query:
  "run_select_datasets b (dataset_row_query limit offset pat ob) rows =
     (case order_datasets b (sort_field ob, sort_descending ob)
             (ds_matching b (wheres (dataset_query pat)) rows) of
        Inl e \<Rightarrow> Inl e
      | Inr sorted_rows \<Rightarrow> paginate (engine b) (Some offset) (Some limit) sorted_rows)"
  by (simp add: run_select_datasets_def dataset_row_query_def limit_to_def offset_by_def
      options_def order_by_text_def ordered_def split: sum.splits)

lemma run_event_row_query:
  "run_select_events b (event_row_query limit offset ob q) rows =
     (case order_events b (sort_field ob, sort_descending ob) (ev_matching (wheres q) rows) of
        Inl e \<Rightarrow> Inl e
      | Inr sorted_rows \<Rightarrow> paginate (engine b) (Some offset) (Some limit) sorted_rows)"
  by (simp add: run_select_events_def event_row_query_def limit_to_def offset_by_def
      order_by_text_def ordered_def split: sum.splits)

lemma get_datasets_refused:
  "sort_field ob \<notin> set dataset_allowed_attrs
     \<Longrightarrow> get_datasets limit offset pat ob s
           = (Inl (InvalidSortField (sort_field ob)), log CountDatasetId s)"
  by (simp add: get_datasets_def count_dataset_ids_def apply_sorting_refused)

lemma get_dataset_events_refused:
  "sort_field ob \<notin> set event_allowed_attrs
     \<Longrightarrow> get_dataset_events limit offset ob a b c d e s
           = (Inl (InvalidSortField (sort_field ob)), log (CountEvent (event_query a b c d e)) s)"
  by (simp add: get_dataset_events_def get_query_count_def apply_sorting_refused Let_def)

lemma get_datasets_allowed:
  assumes "sort_field ob \<in> set dataset_allowed_attrs"
  shows "get_datasets limit offset pat ob s =
     (case run_select_datasets (backend s) (dataset_row_query limit offset pat ob)
             (dataset_rows s) of
        Inl e \<Rightarrow>
          (Inl e, log (SelectDataset (dataset_row_query limit offset pat ob))
                    (log CountDatasetId s))
      | Inr rows \<Rightarrow>
          (Inr \<lparr>items = rows, total_entries = int (length (dataset_rows s))\<rparr>,
           log (SelectDataset (dataset_row_query limit offset pat ob)) (log CountDatasetId s)))"
  using assms
  by (simp add: get_datasets_def count_dataset_ids_def apply_sorting_allowed
      scalars_datasets_def dataset_row_query_def split: sum.splits)

lemma get_dataset_events_allowed:
  assumes "sort_field ob \<in> set event_allowed_attrs"
  shows "get_dataset_events limit offset ob a b c d e s =
     (case run_select_events (backend s) (event_row_query limit offset ob (event_query a b c d e))
             (event_rows s) of
        Inl err \<Rightarrow>
          (Inl err, log (SelectEvent (event_row_query limit offset ob (event_query a b c d e)))
                    (log (CountEvent (event_query a b c d e)) s))
      | Inr rows \<Rightarrow>
          (Inr \<lparr>items = rows,
                total_entries = int (length (filter (event_filter a b c d e) (event_rows s)))\<rparr>,
           log (SelectEvent (event_row_query limit offset ob (event_query a b c d e)))
             (log (CountEvent (event_query a b c d e)) s)))"
  using assms
  by (simp add: get_dataset_events_def get_query_count_def apply_sorting_allowed Let_def
      scalars_events_def event_row_query_def ev_matching_event_query split: sum.splits)

subsection \<open>Deleting a dataset\<close>

text \<open>
  Claim C1. In a store whose uris are unique (the unique key of the data model), for a
  stored dataset \<open>d\<close> with a nonempty \<open>consuming_dags\<close> or \<open>producing_tasks\<close>,
  \<open>delete_dataset (uri d)\<close> fails with \<open>Conflict\<close>, the rows are as they were, the only
  statement executed is the lookup (no delete), and a following \<open>get_dataset (uri d)\<close>
  returns \<open>d\<close>.
\<close>

theorem delete_referenced_dataset_conflict:
  assumes "d \<in> set (dataset_rows s)"
    and "distinct (map uri (dataset_rows s))"
    and "consuming_dags d \<noteq> [] \<or> producing_tasks d \<noteq> []"
  shows "fst (delete_dataset (uri d) s)
           = Inl (Conflict ''Dataset is still referenced by other DAG'')
       \<and> dataset_rows (snd (delete_dataset (uri d) s)) = dataset_rows s
       \<and> executed (snd (delete_dataset (uri d) s)) =
           executed s @ [SelectDataset (where_clause (UriEq (uri d)) select_from)]
       \<and> fst (get_dataset (uri d) (snd (delete_dataset (uri d) s))) = Inr d"
proof -
  have found: "first_row (filter (\<lambda>r. uri r = uri d) (dataset_rows s)) = Some d"
    using assms(1,2) by (simp add: first_row_unique)
  show ?thesis
    by (simp add: delete_dataset_blocked [OF assms] get_dataset_def scalar_by_uri_options found)
qed

text \<open>
  C1 on the catalog: \<open>ds2\<close> has a consuming DAG.
\<close>

theorem delete_referenced_dataset_conflict_witness:
  "fst (delete_dataset ''ds2'' catalog)
     = Inl (Conflict ''Dataset is still referenced by other DAG'')
   \<and> dataset_rows (snd (delete_dataset ''ds2'' catalog)) = dataset_rows catalog
   \<and> executed (snd (delete_dataset ''ds2'' catalog)) =
        [SelectDataset (where_clause (UriEq ''ds2'') select_from)]
   \<and> fst (get_dataset ''ds2'' (snd (delete_dataset ''ds2'' catalog))) = Inr dataset_B"
  using delete_referenced_dataset_conflict [of dataset_B catalog]
  by (simp add: catalog_defs)

text \<open>
  Claim C5. In a store whose uris are unique, for a stored dataset \<open>d\<close> with empty
  \<open>consuming_dags\<close> and empty \<open>producing_tasks\<close>, \<open>delete_dataset (uri d)\<close> succeeds and
  removes the row, no row with that uri is left, and a following \<open>get_dataset (uri d)\<close>
  fails with \<open>NotFound\<close>. For a uri \<open>u\<close> that no stored dataset has, \<open>delete_dataset u\<close>
  and \<open>get_dataset u\<close> both fail with \<open>NotFound\<close>, the detail echoing \<open>u\<close>.
\<close>

theorem delete_unreferenced_dataset:
  assumes "distinct (map uri (dataset_rows s))"
  shows "(d \<in> set (dataset_rows s) \<and> consuming_dags d = [] \<and> producing_tasks d = [] \<longrightarrow>
            fst (delete_dataset (uri d) s) = Inr ()
          \<and> dataset_rows (snd (delete_dataset (uri d) s)) =
              filter (\<lambda>r. ds_id r \<noteq> ds_id d) (dataset_rows s)
          \<and> uri d \<notin> uri ` set (dataset_rows (snd (delete_dataset (uri d) s)))
          \<and> fst (get_dataset (uri d) (snd (delete_dataset (uri d) s)))
              = Inl (not_found (uri d)))
       \<and> (u \<notin> uri ` set (dataset_rows s) \<longrightarrow>
            fst (delete_dataset u s) = Inl (not_found u)
          \<and> dataset_rows (snd (delete_dataset u s)) = dataset_rows s
          \<and> fst (get_dataset u s) = Inl (not_found u))"
proof (intro conjI impI)
  assume u: "u \<notin> uri ` set (dataset_rows s)"
  then have none: "first_row (filter (\<lambda>r. uri r = u) (dataset_rows s)) = None"
    by (rule first_row_absent)
  show "fst (delete_dataset u s) = Inl (not_found u)"
    by (simp add: delete_dataset_def scalar_by_uri none)
  show "dataset_rows (snd (delete_dataset u s)) = dataset_rows s"
    by (simp add: delete_dataset_def scalar_by_uri none)
  show "fst (get_dataset u s) = Inl (not_found u)"
    by (simp add: get_dataset_def scalar_by_uri_options none)
next
  assume d: "d \<in> set (dataset_rows s) \<and> consuming_dags d = [] \<and> producing_tasks d = []"
  have found: "first_row (filter (\<lambda>r. uri r = uri d) (dataset_rows s)) = Some d"
    using assms d by (simp add: first_row_unique)
  let ?s1 = "log (SelectDataset (where_clause (UriEq (uri d)) select_from)) s"
  have del: "delete_dataset (uri d) s = (Inr (), session_delete d ?s1)"
    using d by (simp add: delete_dataset_def scalar_by_uri found)
  have rows: "dataset_rows (session_delete d ?s1)
                = filter (\<lambda>r. ds_id r \<noteq> ds_id d) (dataset_rows s)"
    by (simp add: session_delete_def)
  have only: "\<And>r. r \<in> set (dataset_rows s) \<Longrightarrow> uri r = uri d \<Longrightarrow> r = d"
    using assms d by (meson distinct_map inj_onD)
  have gone: "uri d \<notin> uri ` set (filter (\<lambda>r. ds_id r \<noteq> ds_id d) (dataset_rows s))"
    using only by auto
  show "fst (delete_dataset (uri d) s) = Inr ()"
    by (simp add: del)
  show "dataset_rows (snd (delete_dataset (uri d) s)) =
          filter (\<lambda>r. ds_id r \<noteq> ds_id d) (dataset_rows s)"
    by (simp add: del rows)
  show "uri d \<notin> uri ` set (dataset_rows (snd (delete_dataset (uri d) s)))"
    using gone by (simp add: del rows)
  show "fst (get_dataset (uri d) (snd (delete_dataset (uri d) s))) = Inl (not_found (uri d))"
    using first_row_absent [OF gone]
    by (simp add: del rows get_dataset_def scalar_by_uri_options)
qed

text \<open>
  C5 on the catalog: \<open>ds1\<close> has no references, and no dataset has the uri \<open>ds9\<close>.
\<close>

theorem delete_unreferenced_dataset_witness:
  "distinct (map uri (dataset_rows catalog))
   \<and> dataset_A \<in> set (dataset_rows catalog)
   \<and> consuming_dags dataset_A = [] \<and> producing_tasks dataset_A = []
   \<and> ''ds9'' \<notin> uri ` set (dataset_rows catalog)
   \<and> fst (delete_dataset ''ds1'' catalog) = Inr ()
   \<and> dataset_rows (snd (delete_dataset ''ds1'' catalog)) = [dataset_B, dataset_C, dataset_D]
   \<and> fst (get_dataset ''ds1'' (snd (delete_dataset ''ds1'' catalog))) = Inl (not_found ''ds1'')
   \<and> fst (delete_dataset ''ds9'' catalog) = Inl (not_found ''ds9'')
   \<and> fst (get_dataset ''ds9'' catalog) = Inl (not_found ''ds9'')"
  using delete_unreferenced_dataset [of catalog dataset_A "''ds9''"]
  by (simp add: catalog_defs)

text \<open>
  Claim C9, as stated, fails: the detail of the \<open>Conflict\<close> is one fixed text that speaks
  of a DAG. In a store that holds only \<open>ds3\<close>, which no DAG consumes and one task
  produces, the message does not name tasks.
\<close>

theorem conflict_message_names_kind_counterexample:
  "dataset_rows task_only_catalog = [dataset_C]
   \<and> uri dataset_C = ''ds3''
   \<and> consuming_dags dataset_C = []
   \<and> producing_tasks dataset_C = [(''dag2'', ''load'')]
   \<and> fst (delete_dataset ''ds3'' task_only_catalog)
       = Inl (Conflict ''Dataset is still referenced by other DAG'')
   \<and> \<not> names_kind dataset_C ''Dataset is still referenced by other DAG''"
proof -
  have "fst (delete_dataset (uri dataset_C) task_only_catalog)
          = Inl (Conflict ''Dataset is still referenced by other DAG'')"
    by (subst delete_dataset_blocked) (simp_all add: catalog_defs)
  moreover have "\<not> names_kind dataset_C ''Dataset is still referenced by other DAG''"
    by (simp add: names_kind_def contains_ci_def lower_def lower_char_def dataset_C_def)
  ultimately show ?thesis
    by (simp add: catalog_defs)
qed

text \<open>
  Claim C9, amended. Whenever the guard blocks \<open>delete_dataset\<close>, the \<open>Conflict\<close> carries
  the fixed explanatory message \<open>Dataset is still referenced by other DAG\<close>: a stored
  dataset with a nonempty \<open>consuming_dags\<close> or a nonempty \<open>producing_tasks\<close> gets that
  message (in a store of unique uris, whatever else the store holds), and no \<open>Conflict\<close>
  of \<open>delete_dataset\<close> carries another.
\<close>

theorem conflict_message_is_fixed:
  "(d \<in> set (dataset_rows s) \<and> distinct (map uri (dataset_rows s))
      \<and> (consuming_dags d \<noteq> [] \<or> producing_tasks d \<noteq> []) \<longrightarrow>
        fst (delete_dataset (uri d) s)
          = Inl (Conflict ''Dataset is still referenced by other DAG''))
   \<and> (fst (delete_dataset u s') = Inl (Conflict m) \<longrightarrow>
        m = ''Dataset is still referenced by other DAG'')"
proof (intro conjI impI)
  assume "d \<in> set (dataset_rows s) \<and> distinct (map uri (dataset_rows s))
      \<and> (consuming_dags d \<noteq> [] \<or> producing_tasks d \<noteq> [])"
  then show "fst (delete_dataset (uri d) s)
          = Inl (Conflict ''Dataset is still referenced by other DAG'')"
    by (simp add: delete_dataset_blocked)
next
  assume "fst (delete_dataset u s') = Inl (Conflict m)"
  then show "m = ''Dataset is still referenced by other DAG''"
    by (cases "first_row (filter (\<lambda>r. uri r = u) (dataset_rows s'))")
       (simp_all add: delete_dataset_def scalar_by_uri not_found_def split: if_splits)
qed

text \<open>
  C9 on the store that holds only the task-produced \<open>ds3\<close>, and on the catalog for the
  DAG-consumed \<open>ds2\<close>.
\<close>

theorem conflict_message_is_fixed_witness:
  "dataset_rows task_only_catalog = [dataset_C]
   \<and> producing_tasks dataset_C \<noteq> [] \<and> consuming_dags dataset_C = []
   \<and> fst (delete_dataset ''ds3'' task_only_catalog)
       = Inl (Conflict ''Dataset is still referenced by other DAG'')
   \<and> dataset_B \<in> set (dataset_rows catalog) \<and> consuming_dags dataset_B \<noteq> []
   \<and> fst (delete_dataset ''ds2'' catalog)
       = Inl (Conflict ''Dataset is still referenced by other DAG'')"
proof -
  have a: "fst (delete_dataset (uri dataset_C) task_only_catalog)
       = Inl (Conflict ''Dataset is still referenced by other DAG'')"
    using conflict_message_is_fixed [where s = task_only_catalog and d = dataset_C]
    by (simp add: catalog_defs)
  have b: "fst (delete_dataset (uri dataset_B) catalog)
       = Inl (Conflict ''Dataset is still referenced by other DAG'')"
    using conflict_message_is_fixed [where s = catalog and d = dataset_B]
    by (simp add: catalog_defs)
  show ?thesis
    using a b by (simp add: catalog_defs)
qed

subsection \<open>The catalog\<close>

lemma catalog_backend:
  "backend (catalog_on eng)
     = \<lparr>engine = eng, lower_of = lower_char, collation_key = binary_collation\<rparr>"
  by (simp add: catalog_on_def)

lemma catalog_rows:
  "dataset_rows (catalog_on eng) = [dataset_A, dataset_B, dataset_C, dataset_D]"
  "event_rows (catalog_on eng) = [event_1, event_2, event_3]"
  "executed (catalog_on eng) = []"
  by (simp_all add: catalog_on_def)

lemma id_allowed: "sort_field ''id'' \<in> set dataset_allowed_attrs"
  by (simp add: sort_field_def dataset_allowed_attrs_def)

lemma timestamp_allowed: "sort_field ''timestamp'' \<in> set event_allowed_attrs"
  by (simp add: sort_field_def event_allowed_attrs_def)

lemma catalog_by_id:
  "order_datasets b (sort_field ''id'', sort_descending ''id'')
     [dataset_A, dataset_B, dataset_C, dataset_D] = Inr [dataset_A, dataset_B, dataset_C, dataset_D]"
  by (simp add: order_datasets_def order_by_column_def dataset_column_def sort_field_def
      sort_descending_def order_rows_def int_key_def dataset_A_def dataset_B_def dataset_C_def
      dataset_D_def)

subsection \<open>The count of the dataset listing\<close>

text \<open>
  Claim C2 holds of \<open>get_dataset_events\<close> and not of \<open>get_datasets\<close>, which counts the
  dataset ids before it adds the \<open>uri_pattern\<close> criterion to the row statement. On the
  catalog of four datasets, the pattern \<open>ds1\<close> selects one dataset and \<open>total_entries\<close>
  is \<open>4\<close>.
\<close>

theorem get_datasets_total_ignores_uri_pattern:
  "fst (get_datasets 10 0 (Some ''ds1'') ''id'' catalog)
     = Inr \<lparr>items = [dataset_A], total_entries = 4\<rparr>
   \<and> map (contains_ci ''ds1'' \<circ> uri) (dataset_rows catalog) = [True, False, False, False]"
proof -
  have sel: "ds_matching (backend (catalog_on PostgreSQL)) (wheres (dataset_query (Some ''ds1'')))
               [dataset_A, dataset_B, dataset_C, dataset_D] = [dataset_A]"
    by (simp add: ds_matching_def dataset_query_def when_str_def ilike_def fold_text_def
        catalog_backend lower_char_def backslash_def dataset_A_def dataset_B_def dataset_C_def dataset_D_def)
  have ord: "order_datasets b (sort_field ''id'', sort_descending ''id'') [dataset_A]
               = Inr [dataset_A]" for b
    by (simp add: order_datasets_def order_by_column_def dataset_column_def sort_field_def
        sort_descending_def order_rows_def)
  have "fst (get_datasets 10 0 (Some ''ds1'') ''id'' catalog)
          = Inr \<lparr>items = [dataset_A], total_entries = 4\<rparr>"
    by (simp add: get_datasets_allowed [OF id_allowed] run_dataset_row_query catalog_def
        catalog_rows sel ord paginate_valid)
  moreover have "map (contains_ci ''ds1'' \<circ> uri) (dataset_rows catalog)
                   = [True, False, False, False]"
    by (simp add: contains_ci_def lower_def lower_char_def catalog_defs)
  ultimately show ?thesis by simp
qed

subsection \<open>The sort field\<close>

text \<open>
  Claim C3, as stated, fails: both listings execute their count statement before
  \<open>apply_sorting\<close> looks at \<open>order_by\<close>. With \<open>order_by = "nonexistent_field"\<close> each
  fails with \<open>InvalidSortField\<close> after one statement has been executed.
\<close>

theorem sort_field_checked_after_count_counterexample:
  "fst (get_datasets 10 0 None ''nonexistent_field'' catalog)
     = Inl (InvalidSortField ''nonexistent_field'')
   \<and> executed (snd (get_datasets 10 0 None ''nonexistent_field'' catalog)) = [CountDatasetId]
   \<and> fst (get_dataset_events 10 0 ''nonexistent_field'' None None None None None catalog)
     = Inl (InvalidSortField ''nonexistent_field'')
   \<and> executed (snd (get_dataset_events 10 0 ''nonexistent_field'' None None None None None
        catalog)) = [CountEvent (event_query None None None None None)]
   \<and> executed catalog = []"
  by (simp add: get_datasets_refused get_dataset_events_refused sort_field_def
      dataset_allowed_attrs_def event_allowed_attrs_def catalog_def catalog_rows)

text \<open>
  Claim C3, amended. For an \<open>order_by\<close> whose field is outside the allow-list, both
  listings fail with \<open>InvalidSortField\<close> before the row statement is executed; the count
  statement, and nothing else, has been executed by then.
\<close>

theorem invalid_sort_field_after_count_only:
  "(sort_field order_by \<notin> set dataset_allowed_attrs \<longrightarrow>
      get_datasets limit offset uri_pattern order_by s
        = (Inl (InvalidSortField (sort_field order_by)), log CountDatasetId s))
   \<and> (sort_field order_by \<notin> set event_allowed_attrs \<longrightarrow>
      get_dataset_events limit offset order_by a b c d e s
        = (Inl (InvalidSortField (sort_field order_by)),
           log (CountEvent (event_query a b c d e)) s))"
  by (simp add: get_datasets_refused get_dataset_events_refused)

text \<open>
  C3 on the catalog, with \<open>order_by = "nonexistent_field"\<close>.
\<close>

theorem invalid_sort_field_after_count_only_witness:
  "sort_field ''nonexistent_field'' \<notin> set dataset_allowed_attrs
   \<and> sort_field ''nonexistent_field'' \<notin> set event_allowed_attrs
   \<and> get_datasets 10 0 None ''nonexistent_field'' catalog
        = (Inl (InvalidSortField ''nonexistent_field''), log CountDatasetId catalog)
   \<and> get_dataset_events 10 0 ''nonexistent_field'' (Some 3) None None None None catalog
        = (Inl (InvalidSortField ''nonexistent_field''),
           log (CountEvent (event_query (Some 3) None None None None)) catalog)"
  using invalid_sort_field_after_count_only
    [where order_by = "''nonexistent_field''" and limit = 10 and offset = 0
       and uri_pattern = None and s = catalog and a = "Some 3" and b = None and c = None
       and d = None and e = None]
  by (simp add: sort_field_def dataset_allowed_attrs_def event_allowed_attrs_def)

subsection \<open>Falsy filter values\<close>

text \<open>
  Claim C4. In \<open>get_dataset_events\<close> a filter parameter with a falsy value (\<open>0\<close> for
  \<open>dataset_id\<close> and \<open>source_map_index\<close>, the empty string for the three string filters)
  gives exactly the result, and the session, of the call without that parameter.
\<close>

theorem falsy_filter_is_no_filter:
  "get_dataset_events limit offset order_by (Some 0) b c d e s
     = get_dataset_events limit offset order_by None b c d e s
   \<and> get_dataset_events limit offset order_by a (Some []) c d e s
     = get_dataset_events limit offset order_by a None c d e s
   \<and> get_dataset_events limit offset order_by a b (Some []) d e s
     = get_dataset_events limit offset order_by a b None d e s
   \<and> get_dataset_events limit offset order_by a b c (Some []) e s
     = get_dataset_events limit offset order_by a b c None e s
   \<and> get_dataset_events limit offset order_by a b c d (Some 0) s
     = get_dataset_events limit offset order_by a b c d None s"
  by (simp add: get_dataset_events_def event_query_def when_int_def when_str_def)

text \<open>
  C4 on the catalog: \<open>source_map_index = 0\<close> and \<open>source_dag_id = ""\<close>.
\<close>

theorem falsy_filter_is_no_filter_witness:
  "get_dataset_events 10 0 ''timestamp'' None None None None (Some 0) catalog
     = get_dataset_events 10 0 ''timestamp'' None None None None None catalog
   \<and> get_dataset_events 10 0 ''timestamp'' None (Some []) None None None catalog
     = get_dataset_events 10 0 ''timestamp'' None None None None None catalog"
  using falsy_filter_is_no_filter
    [where limit = 10 and offset = 0 and order_by = "''timestamp''" and a = None and b = None
       and c = None and d = None and e = None and s = catalog]
  by simp

subsection \<open>The count of the event listing\<close>

lemma get_dataset_events_total:
  assumes "sort_field ob \<in> set event_allowed_attrs"
    and "0 \<le> limit" and "limit < 2 ^ 63" and "0 \<le> offset" and "offset < 2 ^ 63"
  shows "map_sum id total_entries (fst (get_dataset_events limit offset ob a b c d e s))
           = Inr (int (length (filter (event_filter a b c d e) (event_rows s))))"
proof -
  obtain key where "event_column (backend s) (sort_field ob) = Some key"
    using event_column_allowed [OF assms(1)] by blast
  then show ?thesis
    using assms(2-)
    by (simp add: get_dataset_events_allowed [OF assms(1)] run_event_row_query
        order_events_column paginate_valid)
qed

lemma get_dataset_events_total_when_returned:
  "get_dataset_events limit offset ob a b c d e s = (Inr r, s')
     \<Longrightarrow> total_entries r = int (length (filter (event_filter a b c d e) (event_rows s)))"
proof (cases "sort_field ob \<in> set event_allowed_attrs")
  case True
  assume "get_dataset_events limit offset ob a b c d e s = (Inr r, s')"
  then show ?thesis
    by (auto simp: get_dataset_events_allowed [OF True] split: sum.splits)
next
  case False
  assume "get_dataset_events limit offset ob a b c d e s = (Inr r, s')"
  then show ?thesis
    by (simp add: get_dataset_events_refused [OF False])
qed

text \<open>
  Claim C7. For an allowed \<open>order_by\<close> and a \<open>limit\<close> and \<open>offset\<close> from \<open>0\<close> to
  \<open>2^63 - 1\<close> (the values every engine accepts), \<open>get_dataset_events\<close> returns a
  collection whose \<open>total_entries\<close> is the number of stored events that match the filters
  (a falsy filter value being no filter), and that number is the same for any other such
  \<open>limit\<close> and \<open>offset\<close>. And whatever the \<open>limit\<close>, \<open>offset\<close> and \<open>order_by\<close>, a
  collection that the call returns has that number as its \<open>total_entries\<close>.
\<close>

theorem event_total_entries_is_filtered_count:
  "(sort_field order_by \<in> set event_allowed_attrs
      \<and> 0 \<le> limit \<and> limit < 2 ^ 63 \<and> 0 \<le> offset \<and> offset < 2 ^ 63
      \<and> 0 \<le> limit' \<and> limit' < 2 ^ 63 \<and> 0 \<le> offset' \<and> offset' < 2 ^ 63 \<longrightarrow>
        map_sum id total_entries (fst (get_dataset_events limit offset order_by a b c d e s))
          = Inr (int (length (filter (event_filter a b c d e) (event_rows s))))
      \<and> map_sum id total_entries (fst (get_dataset_events limit' offset' order_by a b c d e s))
          = map_sum id total_entries
              (fst (get_dataset_events limit offset order_by a b c d e s)))
   \<and> (fst (get_dataset_events any_limit any_offset any_order_by a b c d e s) = Inr r \<longrightarrow>
        total_entries r = int (length (filter (event_filter a b c d e) (event_rows s))))"
proof (intro conjI impI)
  assume "fst (get_dataset_events any_limit any_offset any_order_by a b c d e s) = Inr r"
  then show "total_entries r = int (length (filter (event_filter a b c d e) (event_rows s)))"
    using get_dataset_events_total_when_returned
      [of any_limit any_offset any_order_by a b c d e s r]
    by (cases "get_dataset_events any_limit any_offset any_order_by a b c d e s") simp
qed (simp_all add: get_dataset_events_total)

text \<open>
  C7 on the catalog: two of the three events are of dataset \<open>3\<close>, whatever the page.
\<close>

theorem event_total_entries_is_filtered_count_witness:
  "sort_field ''-timestamp'' \<in> set event_allowed_attrs
   \<and> map_sum id total_entries
        (fst (get_dataset_events 1 0 ''-timestamp'' (Some 3) None None None None catalog))
       = Inr 2
   \<and> map_sum id total_entries
        (fst (get_dataset_events 5 1 ''-timestamp'' (Some 3) None None None None catalog))
       = Inr 2"
proof -
  have ok: "sort_field ''-timestamp'' \<in> set event_allowed_attrs"
    by (simp add: sort_field_def event_allowed_attrs_def)
  have n: "int (length (filter (event_filter (Some 3) None None None None) (event_rows catalog)))
             = 2"
    by (simp add: event_filter_def exact_int_def exact_str_def catalog_defs)
  show ?thesis
    using event_total_entries_is_filtered_count
      [where order_by = "''-timestamp''" and limit = 1 and offset = 0 and limit' = 5
         and offset' = 1 and a = "Some 3" and b = None and c = None and d = None and e = None
         and s = catalog]
      ok n
    by simp
qed

subsection \<open>Pagination\<close>









subsection \<open>A negative offset\<close>

lemma run_select_datasets_never_invalid_parameter:
  "run_select_datasets b q rows \<noteq> Inl (InvalidParameter m)"
  by (cases "order_clause q")
     (auto simp: run_select_datasets_def ordered_def paginate_never_invalid_parameter
        order_datasets_never_invalid_parameter split: sum.splits)

lemma run_select_events_never_invalid_parameter:
  "run_select_events b q rows \<noteq> Inl (InvalidParameter m)"
  by (cases "order_clause q")
     (auto simp: run_select_events_def ordered_def paginate_never_invalid_parameter
        order_events_never_invalid_parameter split: sum.splits)

lemma get_datasets_never_invalid_parameter:
  "fst (get_datasets limit offset pat ob s) \<noteq> Inl (InvalidParameter m)"
proof (cases "sort_field ob \<in> set dataset_allowed_attrs")
  case True
  show ?thesis
    using run_select_datasets_never_invalid_parameter
      [of "backend s" "dataset_row_query limit offset pat ob" "dataset_rows s" m]
    by (auto simp: get_datasets_allowed [OF True] split: sum.splits)
next
  case False
  then show ?thesis by (simp add: get_datasets_refused)
qed

lemma get_dataset_events_never_invalid_parameter:
  "fst (get_dataset_events limit offset ob a b c d e s) \<noteq> Inl (InvalidParameter m)"
proof (cases "sort_field ob \<in> set event_allowed_attrs")
  case True
  show ?thesis
    using run_select_events_never_invalid_parameter
      [of "backend s" "event_row_query limit offset ob (event_query a b c d e)" "event_rows s" m]
    by (auto simp: get_dataset_events_allowed [OF True] split: sum.splits)
next
  case False
  then show ?thesis by (simp add: get_dataset_events_refused)
qed

lemma get_datasets_log:
  "sort_field ob \<in> set dataset_allowed_attrs
     \<Longrightarrow> executed (snd (get_datasets limit offset pat ob s))
           = executed s @ [CountDatasetId, SelectDataset (dataset_row_query limit offset pat ob)]"
  by (simp add: get_datasets_allowed split: sum.splits)

lemma get_dataset_events_log:
  "sort_field ob \<in> set event_allowed_attrs
     \<Longrightarrow> executed (snd (get_dataset_events limit offset ob a b c d e s))
           = executed s @ [CountEvent (event_query a b c d e),
                           SelectEvent (event_row_query limit offset ob (event_query a b c d e))]"
  by (simp add: get_dataset_events_allowed split: sum.splits)

lemma paginate_negative_offset_sqlite:
  "- (2 ^ 63) \<le> off \<Longrightarrow> off < 0 \<Longrightarrow> 0 \<le> lim \<Longrightarrow> lim < 2 ^ 63
     \<Longrightarrow> paginate SQLite (Some off) (Some lim) xs = Inr (take (nat lim) xs)"
  by (simp add: paginate_def offset_rows_def limit_rows_def accepted_count_def)

lemma paginate_negative_offset_postgresql:
  "off < 0 \<Longrightarrow> paginate PostgreSQL (Some off) lim xs = Inl StoreFailure"
  by (simp add: paginate_def offset_rows_def accepted_count_def)

lemma catalog_by_timestamp:
  "order_events b (sort_field ''timestamp'', sort_descending ''timestamp'')
     [event_1, event_2, event_3] = Inr [event_1, event_2, event_3]"
  by (simp add: order_events_def order_by_column_def event_column_def sort_field_def
      sort_descending_def order_rows_def int_key_def event_1_def event_2_def event_3_def)

text \<open>
  Claim C10, as stated, fails: neither listing looks at the sign of \<open>offset\<close>. With
  \<open>offset = -1\<close> the count statement and then the row statement are executed; on SQLite
  the call returns the rows from the first on, on PostgreSQL it fails with the error of
  the database. Neither is \<open>InvalidParameter\<close> before any query.
\<close>

theorem negative_offset_not_validated_counterexample:
  "fst (get_datasets 10 (- 1) None ''id'' (catalog_on SQLite))
     = Inr \<lparr>items = [dataset_A, dataset_B, dataset_C, dataset_D], total_entries = 4\<rparr>
   \<and> executed (snd (get_datasets 10 (- 1) None ''id'' (catalog_on SQLite)))
       = [CountDatasetId, SelectDataset (dataset_row_query 10 (- 1) None ''id'')]
   \<and> fst (get_datasets 10 (- 1) None ''id'' (catalog_on PostgreSQL)) = Inl StoreFailure
   \<and> executed (snd (get_datasets 10 (- 1) None ''id'' (catalog_on PostgreSQL)))
       = [CountDatasetId, SelectDataset (dataset_row_query 10 (- 1) None ''id'')]
   \<and> fst (get_dataset_events 10 (- 1) ''timestamp'' None None None None None
            (catalog_on SQLite))
       = Inr \<lparr>items = [event_1, event_2, event_3], total_entries = 3\<rparr>
   \<and> executed (snd (get_dataset_events 10 (- 1) ''timestamp'' None None None None None
                      (catalog_on SQLite)))
       = [CountEvent (event_query None None None None None),
          SelectEvent (event_row_query 10 (- 1) ''timestamp''
                         (event_query None None None None None))]"
proof -
  have all_ds: "ds_matching bk (wheres (dataset_query None)) rows = rows" for bk rows
    by (simp add: ds_matching_def dataset_query_def when_str_def)
  have all_ev: "ev_matching (wheres (event_query None None None None None)) rows = rows" for rows
    by (simp add: ev_matching_def event_query_def when_str_def when_int_def)
  have a: "fst (get_datasets 10 (- 1) None ''id'' (catalog_on SQLite))
     = Inr \<lparr>items = [dataset_A, dataset_B, dataset_C, dataset_D], total_entries = 4\<rparr>"
    by (simp add: get_datasets_allowed [OF id_allowed] run_dataset_row_query catalog_backend
        catalog_rows all_ds catalog_by_id paginate_negative_offset_sqlite)
  have b: "fst (get_datasets 10 (- 1) None ''id'' (catalog_on PostgreSQL)) = Inl StoreFailure"
    by (simp add: get_datasets_allowed [OF id_allowed] run_dataset_row_query catalog_backend
        catalog_rows all_ds catalog_by_id paginate_negative_offset_postgresql)
  have c: "fst (get_dataset_events 10 (- 1) ''timestamp'' None None None None None
            (catalog_on SQLite))
       = Inr \<lparr>items = [event_1, event_2, event_3], total_entries = 3\<rparr>"
    by (simp add: get_dataset_events_allowed [OF timestamp_allowed] run_event_row_query
        catalog_backend catalog_rows all_ev catalog_by_timestamp paginate_negative_offset_sqlite
        event_filter_def exact_int_def exact_str_def)
  show ?thesis
    by (simp add: a b c get_datasets_log [OF id_allowed]
        get_dataset_events_log [OF timestamp_allowed] catalog_rows)
qed

text \<open>
  Claim C10, amended. The listings do not validate \<open>offset\<close>: with a negative \<open>offset\<close>
  and an allowed \<open>order_by\<close>, the count statement is executed and then the row statement,
  which carries that offset unchanged; the outcome is the database's and is never
  \<open>InvalidParameter\<close>. A call without \<open>offset\<close> is the call with \<open>offset = 0\<close>.
\<close>

theorem negative_offset_reaches_store:
  assumes "offset < 0"
  shows "(sort_field order_by \<in> set dataset_allowed_attrs \<longrightarrow>
            executed (snd (get_datasets limit offset uri_pattern order_by s))
              = executed s @ [CountDatasetId,
                              SelectDataset (dataset_row_query limit offset uri_pattern order_by)]
          \<and> offset_clause (dataset_row_query limit offset uri_pattern order_by) = Some offset)
       \<and> (sort_field order_by \<in> set event_allowed_attrs \<longrightarrow>
            executed (snd (get_dataset_events limit offset order_by a b c d e s))
              = executed s @ [CountEvent (event_query a b c d e),
                              SelectEvent (event_row_query limit offset order_by
                                             (event_query a b c d e))]
          \<and> offset_clause (event_row_query limit offset order_by (event_query a b c d e))
              = Some offset)
       \<and> fst (get_datasets limit offset uri_pattern order_by s) \<noteq> Inl (InvalidParameter m)
       \<and> fst (get_dataset_events limit offset order_by a b c d e s) \<noteq> Inl (InvalidParameter m)
       \<and> get_datasets_call limit None uri_pattern order_by_p s
           = get_datasets_call limit (Some 0) uri_pattern order_by_p s
       \<and> get_dataset_events_call limit None order_by_p a b c d e s
           = get_dataset_events_call limit (Some 0) order_by_p a b c d e s"
  by (simp add: get_datasets_log get_dataset_events_log get_datasets_never_invalid_parameter
      get_dataset_events_never_invalid_parameter get_datasets_call_def
      get_dataset_events_call_def default_to_def dataset_row_query_def event_row_query_def
      limit_to_def offset_by_def)

text \<open>
  C10 on the catalog, with \<open>offset = -3\<close>.
\<close>

theorem negative_offset_reaches_store_witness:
  "(- 3 :: int) < 0
   \<and> sort_field ''id'' \<in> set dataset_allowed_attrs
   \<and> sort_field ''timestamp'' \<in> set event_allowed_attrs
   \<and> executed (snd (get_datasets 10 (- 3) None ''id'' catalog))
       = [CountDatasetId, SelectDataset (dataset_row_query 10 (- 3) None ''id'')]
   \<and> executed (snd (get_dataset_events 10 (- 3) ''timestamp'' None None None None None catalog))
       = [CountEvent (event_query None None None None None),
          SelectEvent (event_row_query 10 (- 3) ''timestamp''
                         (event_query None None None None None))]
   \<and> fst (get_datasets 10 (- 3) None ''id'' catalog) \<noteq> Inl (InvalidParameter [])
   \<and> get_datasets_call 10 None None None catalog = get_datasets_call 10 (Some 0) None None catalog"
proof -
  have neg: "(- 3 :: int) < 0" by simp
  have a: "executed (snd (get_datasets 10 (- 3) None ''id'' catalog))
       = executed catalog @ [CountDatasetId, SelectDataset (dataset_row_query 10 (- 3) None ''id'')]"
    using negative_offset_reaches_store [OF neg, where order_by = "''id''"] id_allowed by blast
  have b: "executed (snd (get_dataset_events 10 (- 3) ''timestamp'' None None None None None
                            catalog))
       = executed catalog @ [CountEvent (event_query None None None None None),
          SelectEvent (event_row_query 10 (- 3) ''timestamp''
                         (event_query None None None None None))]"
    using negative_offset_reaches_store [OF neg, where order_by = "''timestamp''"]
      timestamp_allowed by blast
  have c: "fst (get_datasets 10 (- 3) None ''id'' catalog) \<noteq> Inl (InvalidParameter [])"
    using negative_offset_reaches_store [OF neg] by blast
  have d: "get_datasets_call 10 None None None catalog
             = get_datasets_call 10 (Some 0) None None catalog"
    using negative_offset_reaches_store [OF neg] by blast
  have e: "executed catalog = []"
    by (simp add: catalog_def catalog_rows)
  show ?thesis
    using id_allowed timestamp_allowed a b c d e by simp
qed

subsection \<open>The uri pattern\<close>

lemma starts_with_iff: "starts_with p s \<longleftrightarrow> (\<exists>b. s = p @ b)"
  by (induction p s rule: starts_with.induct) auto

lemma contains_iff: "contains p s \<longleftrightarrow> (\<exists>a b. s = a @ p @ b)"
proof (induction s)
  case Nil
  then show ?case by simp
next
  case (Cons c cs)
  show ?case
  proof
    assume "contains p (c # cs)"
    then consider "starts_with p (c # cs)" | "contains p cs" by auto
    then show "\<exists>a b. c # cs = a @ p @ b"
    proof cases
      case 1
      then obtain b where "c # cs = p @ b" by (auto simp: starts_with_iff)
      then have "c # cs = [] @ p @ b" by simp
      then show ?thesis by blast
    next
      case 2
      then obtain a b where "cs = a @ p @ b" using Cons.IH by blast
      then have "c # cs = (c # a) @ p @ b" by simp
      then show ?thesis by blast
    qed
  next
    assume "\<exists>a b. c # cs = a @ p @ b"
    then obtain a b where ab: "c # cs = a @ p @ b" by blast
    show "contains p (c # cs)"
    proof (cases a)
      case Nil
      with ab have "starts_with p (c # cs)" by (auto simp: starts_with_iff)
      then show ?thesis by simp
    next
      case (Cons x xs)
      with ab have "cs = xs @ p @ b" by simp
      then have "contains p cs" using Cons.IH by blast
      then show ?thesis by simp
    qed
  qed
qed

lemma contains_empty [simp]: "contains [] s"
  by (induction s) auto

lemma lower_char_percent: "lower_char c = CHR ''%'' \<longleftrightarrow> c = CHR ''%''"
  by (auto simp: lower_char_def split: if_splits)

lemma lower_char_underscore: "lower_char c = CHR ''_'' \<longleftrightarrow> c = CHR ''_''"
  by (auto simp: lower_char_def split: if_splits)

lemma lower_char_backslash: "lower_char c = backslash \<longleftrightarrow> c = backslash"
  by (auto simp: lower_char_def backslash_def split: if_splits)

lemma lower_char_folds_letters_only: "folds_letters_only lower_char"
  by (simp add: folds_letters_only_def lower_char_percent lower_char_underscore
      lower_char_backslash)

lemma contains_ci_folded: "contains_ci p s = contains_folded lower_char p s"
  by (simp add: contains_ci_def contains_folded_def lower_def)

lemma like_literal_Cons:
  "like_literal (x # xs) \<longleftrightarrow> x \<noteq> CHR ''%'' \<and> x \<noteq> CHR ''_'' \<and> x \<noteq> backslash \<and> like_literal xs"
  by (auto simp: like_literal_def)

lemma fold_keeps_literal:
  assumes "folds_letters_only f"
  shows "like_literal p \<Longrightarrow> like_literal (map f p)"
proof (induction p)
  case Nil
  then show ?case by simp
next
  case (Cons x xs)
  then have "like_literal (map f xs)" by (simp add: like_literal_Cons)
  moreover have "f x \<noteq> CHR ''%''" "f x \<noteq> CHR ''_''" "f x \<noteq> backslash"
    using Cons.prems assms by (auto simp: like_literal_Cons folds_letters_only_def)
  ultimately show ?case
    by (simp add: like_literal_Cons)
qed

lemma escape_is_backslash: "Some x = like_escape eng \<Longrightarrow> x = backslash"
  by (cases eng) auto

lemma percent_is_no_escape: "Some (CHR ''%'') \<noteq> like_escape eng"
  by (cases eng) (auto simp: backslash_def)

lemma like_percent_any: "like_match (like_escape eng) ''%'' s"
  by (induction s) (auto simp: percent_is_no_escape)

lemma like_literal_prefix:
  "like_literal p \<Longrightarrow> like_match (like_escape eng) (p @ ''%'') s = starts_with p s"
proof (induction p arbitrary: s)
  case Nil
  show ?case by (simp del: like_match.simps add: like_percent_any)
next
  case (Cons x xs)
  then have x: "x \<noteq> CHR ''%''" "x \<noteq> CHR ''_''" "Some x \<noteq> like_escape eng" and xs: "like_literal xs"
    using escape_is_backslash [of x eng] by (auto simp: like_literal_Cons)
  show ?case
    using x Cons.IH [OF xs] by (cases s) auto
qed

lemma like_literal_substring:
  assumes "like_literal p"
  shows "like_match (like_escape eng) (CHR ''%'' # p @ ''%'') s = contains p s"
proof (induction s)
  case Nil
  show ?case
    using like_literal_prefix [OF assms, of eng "[]"]
    by (cases p) (auto simp: percent_is_no_escape)
next
  case (Cons c cs)
  have "like_match (like_escape eng) (CHR ''%'' # p @ ''%'') (c # cs)
          = (like_match (like_escape eng) (p @ ''%'') (c # cs)
             \<or> like_match (like_escape eng) (CHR ''%'' # p @ ''%'') cs)"
    by (simp add: percent_is_no_escape)
  also have "\<dots> = (starts_with p (c # cs) \<or> contains p cs)"
    using like_literal_prefix [OF assms] Cons.IH by simp
  finally show ?case by simp
qed

lemma ilike_literal:
  assumes "like_literal p" and "folds_letters_only (lower_of b)"
  shows "ilike b u (''%'' @ p @ ''%'') = contains_folded (lower_of b) p u"
proof -
  have pc: "lower_of b (CHR ''%'') = CHR ''%''"
    using assms(2) by (simp add: folds_letters_only_def)
  have eq: "map (lower_of b) (''%'' @ p @ ''%'') = CHR ''%'' # map (lower_of b) p @ ''%''"
    by (simp add: pc)
  show ?thesis
    unfolding ilike_def contains_folded_def fold_text_def eq
    by (rule like_literal_substring [OF fold_keeps_literal [OF assms(2) assms(1)]])
qed

text \<open>
  Claim C6, as stated, fails: the pattern is put into a \<open>LIKE\<close> pattern as it is, so its
  \<open>%\<close> and \<open>_\<close> are wildcards and, on PostgreSQL and MySQL, its backslashes are escape
  characters. On the catalog the pattern \<open>_\<close> selects every dataset although no uri
  contains an underscore, and on PostgreSQL the pattern of a backslash and a \<open>d\<close> selects
  \<open>ds1\<close>, \<open>ds2\<close> and \<open>ds3\<close> although no uri contains a backslash.
\<close>

theorem uri_pattern_matches_as_like_pattern_counterexample:
  "fst (get_datasets 10 0 (Some ''_'') ''id'' catalog)
     = Inr \<lparr>items = [dataset_A, dataset_B, dataset_C, dataset_D], total_entries = 4\<rparr>
   \<and> map (contains_ci ''_'' \<circ> uri) (dataset_rows catalog) = [False, False, False, False]
   \<and> engine (backend catalog) = PostgreSQL
   \<and> fst (get_datasets 10 0 (Some [backslash, CHR ''d'']) ''id'' catalog)
     = Inr \<lparr>items = [dataset_A, dataset_B, dataset_C], total_entries = 4\<rparr>
   \<and> map (contains_ci [backslash, CHR ''d''] \<circ> uri) (dataset_rows catalog)
     = [False, False, False, False]"
proof -
  have sel1: "ds_matching (backend (catalog_on PostgreSQL)) (wheres (dataset_query (Some ''_'')))
               [dataset_A, dataset_B, dataset_C, dataset_D]
               = [dataset_A, dataset_B, dataset_C, dataset_D]"
    by (simp add: ds_matching_def dataset_query_def when_str_def ilike_def fold_text_def
        catalog_backend lower_char_def backslash_def dataset_A_def dataset_B_def dataset_C_def
        dataset_D_def)
  have sel2: "ds_matching (backend (catalog_on PostgreSQL)) (wheres (dataset_query (Some [backslash, CHR ''d''])))
               [dataset_A, dataset_B, dataset_C, dataset_D]
               = [dataset_A, dataset_B, dataset_C]"
    by (simp add: ds_matching_def dataset_query_def when_str_def ilike_def fold_text_def
        catalog_backend lower_char_def backslash_def dataset_A_def dataset_B_def dataset_C_def
        dataset_D_def)
  have ord3: "order_datasets b (sort_field ''id'', sort_descending ''id'')
     [dataset_A, dataset_B, dataset_C] = Inr [dataset_A, dataset_B, dataset_C]" for b
    by (simp add: order_datasets_def order_by_column_def dataset_column_def sort_field_def
        sort_descending_def order_rows_def int_key_def dataset_A_def dataset_B_def dataset_C_def)
  have a: "fst (get_datasets 10 0 (Some ''_'') ''id'' catalog)
     = Inr \<lparr>items = [dataset_A, dataset_B, dataset_C, dataset_D], total_entries = 4\<rparr>"
    by (simp add: get_datasets_allowed [OF id_allowed] run_dataset_row_query catalog_def
        catalog_rows sel1 catalog_by_id paginate_valid)
  have b: "fst (get_datasets 10 0 (Some [backslash, CHR ''d'']) ''id'' catalog)
     = Inr \<lparr>items = [dataset_A, dataset_B, dataset_C], total_entries = 4\<rparr>"
    by (simp add: get_datasets_allowed [OF id_allowed] run_dataset_row_query catalog_def
        catalog_rows sel2 ord3 paginate_valid)
  have c: "map (contains_ci ''_'' \<circ> uri) (dataset_rows catalog) = [False, False, False, False]"
    by (simp add: contains_ci_def lower_def lower_char_def catalog_defs)
  have d: "map (contains_ci [backslash, CHR ''d''] \<circ> uri) (dataset_rows catalog)
     = [False, False, False, False]"
    by (simp add: contains_ci_def lower_def lower_char_def backslash_def catalog_defs)
  show ?thesis
    using a b c d by (simp add: catalog_def catalog_backend)
qed

text \<open>
  Claim C6, amended. For a \<open>uri_pattern\<close> without the characters \<open>%\<close>, \<open>_\<close> and
  backslash, on every engine and under every folding that touches letters only, a dataset
  matches the criterion of \<open>get_datasets\<close> if and only if its uri contains the pattern
  ignoring case (both folded as the database folds them), and the rows the row statement
  selects are the datasets whose uri does; without a pattern every dataset is selected.
  The filters of \<open>get_dataset_events\<close> are equalities of a column with the given value.
\<close>

theorem uri_pattern_literal_substring:
  assumes "CHR ''%'' \<notin> set p" and "CHR ''_'' \<notin> set p" and "backslash \<notin> set p"
    and "folds_letters_only (lower_of bk)"
  shows "ds_holds bk (UriILike (''%'' @ p @ ''%'')) ds = contains_folded (lower_of bk) p (uri ds)
       \<and> ds_matching bk (wheres (dataset_query (Some p))) rows
           = filter (\<lambda>r. contains_folded (lower_of bk) p (uri r)) rows
       \<and> ds_matching bk (wheres (dataset_query None)) rows = rows
       \<and> ev_matching (wheres (event_query a b c d e)) events
           = filter (event_filter a b c d e) events"
proof -
  have lit: "like_literal p"
    using assms by (simp add: like_literal_def)
  have one: "\<And>r. ds_holds bk (UriILike (''%'' @ p @ ''%'')) r
               = contains_folded (lower_of bk) p (uri r)"
    using ilike_literal [OF lit assms(4)] by simp
  have two: "ds_matching bk (wheres (dataset_query (Some p))) rows
               = filter (\<lambda>r. contains_folded (lower_of bk) p (uri r)) rows"
  proof (cases "p = []")
    case True
    then show ?thesis
      by (simp add: dataset_query_def when_str_def ds_matching_def contains_folded_def)
  next
    case False
    then show ?thesis
      using one by (simp add: dataset_query_def when_str_def ds_matching_def)
  qed
  have three: "ds_matching bk (wheres (dataset_query None)) rows = rows"
    by (simp add: dataset_query_def when_str_def ds_matching_def)
  show ?thesis
    using one two three ev_matching_event_query by simp
qed

text \<open>
  C6 on the catalog: \<open>bucket\<close> matches \<open>s3://Bucket/Key\<close> on each engine.
\<close>

theorem uri_pattern_literal_substring_witness:
  "CHR ''%'' \<notin> set ''bucket'' \<and> CHR ''_'' \<notin> set ''bucket'' \<and> backslash \<notin> set ''bucket''
   \<and> folds_letters_only (lower_of (backend (catalog_on PostgreSQL)))
   \<and> ds_holds (backend (catalog_on PostgreSQL)) (UriILike (''%'' @ ''bucket'' @ ''%'')) dataset_D
   \<and> ds_holds (backend (catalog_on SQLite)) (UriILike (''%'' @ ''bucket'' @ ''%'')) dataset_D
   \<and> contains_ci ''bucket'' ''s3://Bucket/Key''
   \<and> ds_matching (backend (catalog_on MySQL)) (wheres (dataset_query (Some ''bucket'')))
        (dataset_rows catalog) = [dataset_D]
   \<and> ev_matching (wheres (event_query None (Some ''dag3'') None None None)) (event_rows catalog)
       = [event_3]"
proof -
  have f: "folds_letters_only (lower_of (backend (catalog_on eng)))" for eng
    by (simp add: catalog_backend lower_char_folds_letters_only)
  have lo: "lower_of (backend (catalog_on eng)) = lower_char" for eng
    by (simp add: catalog_backend)
  have lit: "CHR ''%'' \<notin> set ''bucket''" "CHR ''_'' \<notin> set ''bucket''"
    "backslash \<notin> set ''bucket''"
    by (simp_all add: backslash_def)
  have m: "contains_ci ''bucket'' ''s3://Bucket/Key''"
    by (simp add: contains_ci_def lower_def lower_char_def)
  have a: "ds_holds (backend (catalog_on PostgreSQL)) (UriILike (''%'' @ ''bucket'' @ ''%''))
             dataset_D"
    using uri_pattern_literal_substring
      [OF lit f, where eng1 = PostgreSQL and ds = dataset_D] m
    by (simp add: lo contains_ci_folded dataset_D_def)
  have b: "ds_holds (backend (catalog_on SQLite)) (UriILike (''%'' @ ''bucket'' @ ''%''))
             dataset_D"
    using uri_pattern_literal_substring
      [OF lit f, where eng1 = SQLite and ds = dataset_D] m
    by (simp add: lo contains_ci_folded dataset_D_def)
  have c: "ds_matching (backend (catalog_on MySQL)) (wheres (dataset_query (Some ''bucket'')))
        (dataset_rows catalog) = [dataset_D]"
    using uri_pattern_literal_substring
      [OF lit f, where eng1 = MySQL and rows = "dataset_rows catalog"]
    by (simp add: lo contains_folded_def lower_char_def catalog_defs)
  have d: "ev_matching (wheres (event_query None (Some ''dag3'') None None None))
             (event_rows catalog) = [event_3]"
    using uri_pattern_literal_substring
      [OF lit f, where events = "event_rows catalog" and a = None and b = "Some ''dag3''"
         and c = None and d = None and e = None]
    by (simp add: event_filter_def exact_int_def exact_str_def catalog_defs)
  show ?thesis
    using lit f a b c d m by simp
qed

end
